theory Spec2Isabelle
  imports Main "HOL-Library.Word"
begin

section \<open>The type-erased container \<open>Any\<close>\<close>

text \<open>
  \<^verbatim>\<open>class Any\<close> of \<^verbatim>\<open>threadpool.hpp\<close> owns a \<^verbatim>\<open>std::unique_ptr<Base> base_\<close>. The pointer is
  null (\<^verbatim>\<open>Any() = default\<close>) or points to a \<^verbatim>\<open>Derive<T>\<close> object, whose only member is
  \<^verbatim>\<open>T data_\<close>. The dynamic type of the pointee is what \<^verbatim>\<open>dynamic_cast\<close> inspects, so the
  model of a \<^verbatim>\<open>Derive<T>\<close> object records the template argument \<open>T\<close> (a value of the
  type \<open>'t\<close> of type identities) next to the payload (a value of \<open>'v\<close>).
  An Isabelle name cannot end in an underscore, so the members \<^verbatim>\<open>base_\<close>, \<^verbatim>\<open>data_\<close>, ... and the
  method \<^verbatim>\<open>cast_\<close> are written here without the final underscore.
\<close>

datatype ('t, 'v) Base = Derive (type_arg: 't) (data: 'v)

datatype ('t, 'v) Any = Any (base: "('t, 'v) Base option")

text \<open>The only \<^verbatim>\<open>throw\<close> of the header: \<^verbatim>\<open>throw "type is unmatch!"\<close>.\<close>

datatype exn = Throw string

definition type_is_unmatch :: exn where
  "type_is_unmatch = Throw ''type is unmatch!''"

text \<open>\<^verbatim>\<open>Any() = default\<close>: the \<^verbatim>\<open>unique_ptr\<close> member is null.\<close>

definition Any_default :: "('t, 'v) Any" where
  "Any_default = Any None"

text \<open>
  The header never moves a payload (there is no \<^verbatim>\<open>std::move\<close> in it): every transfer of a
  \<open>T\<close> is a copy-construction, so the templates below can only be instantiated for a \<open>T\<close>
  with a copy constructor. What a copy constructor returns is up to the class \<open>T\<close>; the model
  takes the copy constructors of the program's types as a parameter \<open>cc\<close>, where \<open>cc T v\<close> is
  the object that \<open>T\<close>'s copy constructor builds from \<open>v\<close>.
\<close>

type_synonym ('t, 'v) copy_ctors = "'t \<Rightarrow> 'v \<Rightarrow> 'v"

text \<open>
  \<^verbatim>\<open>Derive(T data) : data_(data) {}\<close>, called with an lvalue: the by-value parameter \<^verbatim>\<open>data\<close> is
  copy-constructed from the argument, and the member \<^verbatim>\<open>data_\<close> is copy-constructed from the
  parameter.
\<close>

definition Derive_ctor :: "('t, 'v) copy_ctors \<Rightarrow> 't \<Rightarrow> 'v \<Rightarrow> ('t, 'v) Base" where
  "Derive_ctor cc T arg = (let param = cc T arg in Derive T (cc T param))"

text \<open>
  \<^verbatim>\<open>template<typename T> Any(T data) : base_(std::make_unique<Derive<T>>(data))\<close>, called as
  \<^verbatim>\<open>Any(v)\<close> with an lvalue \<open>v\<close>. \<open>T\<close> is the template argument, which C++ deduces from the
  static type of \<open>v\<close>. The by-value parameter \<^verbatim>\<open>data\<close> is copy-constructed from \<open>v\<close>, and
  \<^verbatim>\<open>make_unique\<close> passes it on, as an lvalue, to the constructor of \<^verbatim>\<open>Derive<T>\<close>: the object
  stored is the third copy of \<open>v\<close>.
\<close>

definition Any_ctor :: "('t, 'v) copy_ctors \<Rightarrow> 't \<Rightarrow> 'v \<Rightarrow> ('t, 'v) Any" where
  "Any_ctor cc T v = (let param = cc T v in Any (Some (Derive_ctor cc T param)))"

text \<open>
  \<^verbatim>\<open>Any(Any&&) = default\<close>: the new object takes the pointer, the source is left with a null
  pointer. The result is the pair (new object, source afterwards).
\<close>

definition Any_move :: "('t, 'v) Any \<Rightarrow> ('t, 'v) Any \<times> ('t, 'v) Any" where
  "Any_move src = (Any (base src), Any None)"

text \<open>
  \<^verbatim>\<open>dynamic_cast<Derive<T>*>(p)\<close>: null for a null pointer, null when the pointee is not a
  \<^verbatim>\<open>Derive<T>\<close> (no class derives from \<^verbatim>\<open>Derive<T>\<close>, so the dynamic type has to be
  exactly that), the pointer itself otherwise.
\<close>

definition dynamic_cast :: "'t \<Rightarrow> ('t, 'v) Base option \<Rightarrow> ('t, 'v) Base option" where
  "dynamic_cast T p =
     (case p of
        None \<Rightarrow> None
      | Some obj \<Rightarrow> if type_arg obj = T then Some obj else None)"

text \<open>
  \<^verbatim>\<open>
  template<typename T> T cast_()
  {
      Derive<T>* pd = dynamic_cast<Derive<T>*>(base_.get());
      if (pd == nullptr) { throw "type is unmatch!"; }
      return pd->data_;
  }
  \<close>
  The method is not \<^verbatim>\<open>const\<close>, so the model returns the object's state after the call
  next to the outcome. The body assigns nothing: \<^verbatim>\<open>base_.get()\<close> only reads the pointer and
  \<^verbatim>\<open>return pd->data_\<close> copy-constructs the returned \<open>T\<close> from the member.
\<close>

definition cast :: "('t, 'v) copy_ctors \<Rightarrow> 't \<Rightarrow> ('t, 'v) Any \<Rightarrow> (exn + 'v) \<times> ('t, 'v) Any" where
  "cast cc T a =
     (case dynamic_cast T (base a) of
        None \<Rightarrow> (Inl type_is_unmatch, a)
      | Some pd \<Rightarrow> (Inr (cc T (data pd)), a))"

text \<open>
  Two families of copy constructors for the examples. \<open>same_copy\<close>: every copy is equal to
  its source, as for \<^verbatim>\<open>int\<close>, \<^verbatim>\<open>long\<close> or \<^verbatim>\<open>std::string\<close>. \<open>counting_copy\<close>: a class that records
  how often it was copied,
  \<^verbatim>\<open>struct Counted { int copies = 0; Counted() = default;
     Counted(const Counted& o) : copies(o.copies + 1) {} };\<close>
  whose objects are modelled by the value of \<^verbatim>\<open>copies\<close>.
\<close>

definition same_copy :: "('t, 'v) copy_ctors" where
  "same_copy T v = v"


section \<open>The semaphore\<close>

text \<open>
  \<^verbatim>\<open>int\<close> is a 32-bit two's complement integer: a \<open>32 word\<close>, read with \<open>sint\<close> and compared
  with the signed order. \<^verbatim>\<open>resLimit_++\<close> at \<^verbatim>\<open>INT_MAX\<close> is undefined behaviour in C++; the model
  wraps around, as the word type does and as the compiled code does on the usual targets.
  Whatever the value after such an overflow, it is not the mathematical count, which no
  \<^verbatim>\<open>int\<close> can hold; the theorems about counting are about histories without overflow.
\<close>

type_synonym cint = "32 word"

definition INT_MAX :: cint where
  "INT_MAX = 2147483647"

text \<open>Threads are identified by a number.\<close>

type_synonym tid = nat

text \<open>
  \<^verbatim>\<open>class Semaphore\<close> has the members \<^verbatim>\<open>int resLimit_\<close>, \<^verbatim>\<open>std::mutex mtx_\<close> and
  \<^verbatim>\<open>std::condition_variable cond_\<close>. Both methods hold \<^verbatim>\<open>mtx_\<close> for their whole body, so each
  is one atomic step on the state. The state of the condition variable is the set of threads
  blocked in \<^verbatim>\<open>cond_.wait\<close>.
\<close>

record Semaphore =
  resLimit :: cint
  cond :: "tid set"

text \<open>\<^verbatim>\<open>Semaphore(int limit = 0) : resLimit_(limit)\<close>.\<close>

definition Semaphore_ctor :: "cint \<Rightarrow> Semaphore" where
  "Semaphore_ctor limit = \<lparr>resLimit = limit, cond = {}\<rparr>"

definition Semaphore_default :: Semaphore where
  "Semaphore_default = Semaphore_ctor 0"

text \<open>
  \<^verbatim>\<open>
  void wait()
  {
      std::unique_lock<std::mutex> lock(mtx_);
      cond_.wait(lock, [&]()->bool {return resLimit_ > 0; });
      resLimit_--;
  }
  \<close>
  \<^verbatim>\<open>cond_.wait(lock, pred)\<close> is \<^verbatim>\<open>while (!pred()) cond_.wait(lock);\<close>. One step of thread \<open>t\<close>
  evaluates the predicate under the lock: when it holds the thread decrements and returns,
  otherwise the thread blocks on the condition variable. A blocked thread that is woken
  (by \<^verbatim>\<open>notify_all\<close> or spuriously) evaluates the predicate again, which is the same step.
\<close>

datatype wait_result = Returned | Blocked

definition wait :: "tid \<Rightarrow> Semaphore \<Rightarrow> wait_result \<times> Semaphore" where
  "wait t s =
     (if 0 <s resLimit s
      then (Returned, s\<lparr>resLimit := resLimit s - 1, cond := cond s - {t}\<rparr>)
      else (Blocked, s\<lparr>cond := insert t (cond s)\<rparr>))"

text \<open>
  \<^verbatim>\<open>
  void post()
  {
      std::unique_lock<std::mutex> lock(mtx_);
      resLimit_++;
      cond_.notify_all();
  }
  \<close>
  \<^verbatim>\<open>notify_all\<close> unblocks every thread waiting on the condition variable.
\<close>

definition post :: "Semaphore \<Rightarrow> Semaphore" where
  "post s = s\<lparr>resLimit := resLimit s + 1, cond := {}\<rparr>"

text \<open>
  A history of the semaphore is a list of steps, in the order in which they took the mutex.
  \<open>signals\<close> counts the calls of \<^verbatim>\<open>post\<close>, \<open>completed_waits\<close> the calls of \<^verbatim>\<open>wait\<close> that
  returned, and \<open>no_overflow\<close> says that no \<^verbatim>\<open>post\<close> of the history found the count at
  \<^verbatim>\<open>INT_MAX\<close>.
\<close>

datatype event = Post | Wait tid

fun run :: "event list \<Rightarrow> Semaphore \<Rightarrow> Semaphore" where
  "run [] s = s"
| "run (Post # es) s = run es (post s)"
| "run (Wait t # es) s = run es (snd (wait t s))"

fun signals :: "event list \<Rightarrow> nat" where
  "signals [] = 0"
| "signals (Post # es) = Suc (signals es)"
| "signals (Wait t # es) = signals es"

fun completed_waits :: "event list \<Rightarrow> Semaphore \<Rightarrow> nat" where
  "completed_waits [] s = 0"
| "completed_waits (Post # es) s = completed_waits es (post s)"
| "completed_waits (Wait t # es) s =
     (if fst (wait t s) = Returned then 1 else 0) + completed_waits es (snd (wait t s))"

fun no_overflow :: "event list \<Rightarrow> Semaphore \<Rightarrow> bool" where
  "no_overflow [] s = True"
| "no_overflow (Post # es) s = (resLimit s \<noteq> INT_MAX \<and> no_overflow es (post s))"
| "no_overflow (Wait t # es) s = no_overflow es (snd (wait t s))"

section \<open>Results, threads and the pool\<close>

text \<open>
  \<^verbatim>\<open>threadpool.hpp\<close> declares the classes \<^verbatim>\<open>Result\<close>, \<^verbatim>\<open>Task\<close>, \<^verbatim>\<open>Thread\<close> and \<^verbatim>\<open>ThreadPool\<close> with
  their data members; the bodies of their member functions are defined outside the header.
  The records below follow the declarations of the header, member by member.
  Each function whose body is missing is modelled from the specification and marked so.

  A \<^verbatim>\<open>std::shared_ptr<Task>\<close> is modelled by the identity of the \<^verbatim>\<open>Task\<close> object it points to.
\<close>

type_synonym Task_ptr = nat

text \<open>
  \<^verbatim>\<open>class Result\<close>: \<^verbatim>\<open>Any any_\<close>, \<^verbatim>\<open>Semaphore sem_\<close>, \<^verbatim>\<open>std::shared_ptr<Task> task_\<close>,
  \<^verbatim>\<open>std::atomic_bool isValid_\<close>.
\<close>

record ('t, 'v) Result =
  any :: "('t, 'v) Any"
  sem :: Semaphore
  task :: Task_ptr
  isValid :: bool

text \<open>
  Modelled from the spec: the body of the constructor
  \<^verbatim>\<open>Result(std::shared_ptr<Task> task, bool isValid = true)\<close>, of which the header has only
  the declaration. Spec, ResultHandle: "a Value slot (initially empty); a Latch; a
  shared-ownership reference to its Task; a validity flag". The members \<^verbatim>\<open>any_\<close> and \<^verbatim>\<open>sem_\<close>
  are default-constructed.
\<close>

definition Result_ctor :: "Task_ptr \<Rightarrow> bool \<Rightarrow> ('t, 'v) Result" where
  "Result_ctor tp valid =
     \<lparr>any = Any_default, sem = Semaphore_default, task = tp, isValid = valid\<rparr>"

text \<open>
  Modelled from the spec: the body of \<^verbatim>\<open>void Result::setVal(Any any)\<close>. Spec, set(v): "Moves v
  into the slot and signals the Latch."
\<close>

definition setVal :: "('t, 'v) Any \<Rightarrow> ('t, 'v) Result \<Rightarrow> ('t, 'v) Result" where
  "setVal v r = r\<lparr>any := fst (Any_move v), sem := post (sem r)\<rparr>"

text \<open>
  Modelled from the spec: the body of \<^verbatim>\<open>Any Result::get()\<close>. Spec, get(): "Waits on the Latch,
  then moves the slot out. If the handle was created invalid (submission rejected), returns
  an empty Value immediately." The outcome of one step of the calling thread \<open>t\<close> is \<open>None\<close>
  while the thread is blocked on the semaphore, and the returned \<open>Any\<close> otherwise.
\<close>

definition get :: "tid \<Rightarrow> ('t, 'v) Result \<Rightarrow> ('t, 'v) Any option \<times> ('t, 'v) Result" where
  "get t r =
     (if \<not> isValid r then (Some Any_default, r)
      else
        (case wait t (sem r) of
           (Blocked, sm) \<Rightarrow> (None, r\<lparr>sem := sm\<rparr>)
         | (Returned, sm) \<Rightarrow>
             (Some (fst (Any_move (any r))), r\<lparr>any := snd (Any_move (any r)), sem := sm\<rparr>)))"

text \<open>
  \<^verbatim>\<open>class Thread\<close>: \<^verbatim>\<open>ThreadFunc func_\<close> (not modelled: the pool binds it to its own
  \<^verbatim>\<open>threadFunc\<close>), \<^verbatim>\<open>int threadId_\<close>, and the static member \<^verbatim>\<open>static int generateId_\<close>. A static
  member is one variable of the process, shared by all \<^verbatim>\<open>Thread\<close> objects of all pools; the
  functions that create threads take its value and return the new one.
\<close>

record Thread =
  threadId :: cint

text \<open>
  Modelled from the spec: the body of the constructor \<^verbatim>\<open>Thread(ThreadFunc func)\<close>. Spec, start:
  "assigns each a fresh id"; spec, Worker registry: "a mapping from monotonically increasing
  worker id to worker handle". The header's \<^verbatim>\<open>generateId_\<close> is the counter the ids come from.
\<close>

definition Thread_ctor :: "cint \<Rightarrow> Thread \<times> cint" where
  "Thread_ctor g = (\<lparr>threadId = g\<rparr>, g + 1)"

datatype PoolMode = MODE_FIXED | MODE_CACHED

text \<open>
  \<^verbatim>\<open>class ThreadPool\<close>, member by member. \<^verbatim>\<open>threads_\<close> is a
  \<^verbatim>\<open>std::unordered_map<int, std::unique_ptr<Thread>>\<close>, \<^verbatim>\<open>taskQue_\<close> a
  \<^verbatim>\<open>std::queue<std::shared_ptr<Task>>\<close> (its front is the head of the list). The mutex
  \<^verbatim>\<open>taskQueMtx_\<close> is held by every step below, so each is atomic; the three condition variables
  only decide when a blocked thread takes its next step and are not part of the state.
\<close>

record ThreadPool =
  threads :: "cint \<rightharpoonup> Thread"
  initThreadSize :: cint
  threadSizeThreshHold :: cint
  curThreadSize :: cint
  idleThreadSize :: cint
  taskQue :: "Task_ptr list"
  taskSize :: cint
  taskQueMaxThreshHold :: cint
  poolMode :: PoolMode
  isPoolRunning :: bool

text \<open>\<^verbatim>\<open>std::unordered_map::emplace\<close> inserts only when the key is not yet present.\<close>

definition emplace :: "'k \<Rightarrow> 'a \<Rightarrow> ('k \<rightharpoonup> 'a) \<Rightarrow> ('k \<rightharpoonup> 'a)" where
  "emplace k v m = (if k \<in> dom m then m else m(k \<mapsto> v))"

text \<open>The errors a pool operation can raise.\<close>

datatype pool_error = AlreadyRunning

text \<open>
  Modelled from the spec: the body of \<^verbatim>\<open>bool checkRunningState() const\<close>; the header's
  \<^verbatim>\<open>isPoolRunning_\<close> is "the start state of the pool".
\<close>

definition checkRunningState :: "ThreadPool \<Rightarrow> bool" where
  "checkRunningState p = isPoolRunning p"

text \<open>
  Modelled from the spec: the bodies of \<^verbatim>\<open>setMode\<close>, \<^verbatim>\<open>setTaskQueMaxThreshHold\<close> and
  \<^verbatim>\<open>setThreadSizeThreshHold\<close>. Spec, 4.5.1: "setMode(m), setMaxQueueLength(n),
  setMaxWorkerCount(n): all reject with AlreadyRunning if called after start." Each returns
  its outcome and the pool after the call.
\<close>

definition setMode :: "PoolMode \<Rightarrow> ThreadPool \<Rightarrow> (pool_error + unit) \<times> ThreadPool" where
  "setMode mode p =
     (if checkRunningState p then (Inl AlreadyRunning, p)
      else (Inr (), p\<lparr>poolMode := mode\<rparr>))"

definition setTaskQueMaxThreshHold :: "cint \<Rightarrow> ThreadPool \<Rightarrow> (pool_error + unit) \<times> ThreadPool" where
  "setTaskQueMaxThreshHold threshhold p =
     (if checkRunningState p then (Inl AlreadyRunning, p)
      else (Inr (), p\<lparr>taskQueMaxThreshHold := threshhold\<rparr>))"

definition setThreadSizeThreshHold :: "cint \<Rightarrow> ThreadPool \<Rightarrow> (pool_error + unit) \<times> ThreadPool" where
  "setThreadSizeThreshHold threshhold p =
     (if checkRunningState p then (Inl AlreadyRunning, p)
      else (Inr (), p\<lparr>threadSizeThreshHold := threshhold\<rparr>))"

text \<open>
  Modelled from the spec: the loop of \<^verbatim>\<open>start\<close> that creates the workers. Spec, 4.5.2: "Creates
  initial workers, assigns each a fresh id, inserts into the registry, launches each."
\<close>

fun create_threads :: "nat \<Rightarrow> cint \<Rightarrow> (cint \<rightharpoonup> Thread) \<Rightarrow> cint \<times> (cint \<rightharpoonup> Thread)" where
  "create_threads 0 g ths = (g, ths)"
| "create_threads (Suc n) g ths =
     create_threads n (snd (Thread_ctor g))
       (emplace (threadId (fst (Thread_ctor g))) (fst (Thread_ctor g)) ths)"

text \<open>
  Modelled from the spec: the body of \<^verbatim>\<open>void start(int initThreadSize)\<close>. Spec, 4.5.2:
  "Preconditions: pool not already running. Effects: 1. Records initialWorkerCount = initial,
  sets running = true. 2. Creates initial workers, ..."; spec, 6: start raises
  \<open>AlreadyRunning\<close>; spec, Worker registry: "registry.size == currentWorkerCount", so the
  count of live workers grows with the registry.
\<close>

definition start ::
  "cint \<Rightarrow> cint \<Rightarrow> ThreadPool \<Rightarrow> (pool_error + unit) \<times> cint \<times> ThreadPool" where
  "start initial g p =
     (if checkRunningState p then (Inl AlreadyRunning, g, p)
      else
        (Inr (),
         fst (create_threads (nat (sint initial)) g (threads p)),
         p\<lparr>initThreadSize := initial,
           isPoolRunning := True,
           threads := snd (create_threads (nat (sint initial)) g (threads p)),
           curThreadSize := curThreadSize p + of_nat (nat (sint initial))\<rparr>))"

text \<open>
  Modelled from the spec: the body of \<^verbatim>\<open>Result submitTask(std::shared_ptr<Task> sp)\<close>. Spec,
  4.5.3: "Wait on notFull condition until queue.length < maxQueueLength, with a bounded wait
  of 1 second. If the timeout elapses without space, release the mutex and return an invalid
  ResultHandle bound to task (no rejection exception). Otherwise, push the task, increment
  queueSize, and notify one waiter on notEmpty. CACHED-mode elasticity: if after enqueue
  queueSize > idleWorkerCount AND currentWorkerCount < maxWorkerCount, create one additional
  worker, insert it into the registry, increment currentWorkerCount, and start it. Release
  the mutex; return the ResultHandle (valid)." Spec, 4.5.6: "submit allowed only in Running;
  in any other state, returns an invalid ResultHandle." Spec, 6: submit never raises.

  The argument \<open>p\<close> is the pool as the call finds it when its bounded wait ends: with space in
  the queue, or at the timeout without. How long the wait lasted is not part of the model.
\<close>

type_synonym ('t, 'v) submitted = "(pool_error + ('t, 'v) Result) \<times> cint \<times> ThreadPool"

definition submitTask :: "Task_ptr \<Rightarrow> cint \<Rightarrow> ThreadPool \<Rightarrow> ('t, 'v) submitted" where
  "submitTask sp g p =
     (if \<not> isPoolRunning p then (Inr (Result_ctor sp False), g, p)
      else if \<not> int (length (taskQue p)) < sint (taskQueMaxThreshHold p)
      then (Inr (Result_ctor sp False), g, p)
      else if poolMode p = MODE_CACHED \<and> idleThreadSize p <s taskSize p + 1
                \<and> curThreadSize p <s threadSizeThreshHold p
      then
        (Inr (Result_ctor sp True),
         snd (Thread_ctor g),
         p\<lparr>taskQue := taskQue p @ [sp],
           taskSize := taskSize p + 1,
           threads := emplace (threadId (fst (Thread_ctor g))) (fst (Thread_ctor g)) (threads p),
           curThreadSize := curThreadSize p + 1\<rparr>)
      else
        (Inr (Result_ctor sp True), g,
         p\<lparr>taskQue := taskQue p @ [sp], taskSize := taskSize p + 1\<rparr>))"

text \<open>
  Modelled from the spec: step 4 of the worker main loop in \<^verbatim>\<open>threadFunc\<close>. Spec, 4.5.4:
  "Loop while the queue is empty: ... wait on notEmpty"; "Dequeue one task; decrement
  queueSize and idleWorkerCount; signal notFull; if the queue remains non-empty, also signal
  notEmpty." With an empty queue the worker takes nothing (\<open>None\<close>) and goes on waiting.
\<close>

definition take_task :: "ThreadPool \<Rightarrow> Task_ptr option \<times> ThreadPool" where
  "take_task p =
     (case taskQue p of
        [] \<Rightarrow> (None, p)
      | tp # q \<Rightarrow>
          (Some tp,
           p\<lparr>taskQue := q, taskSize := taskSize p - 1, idleThreadSize := idleThreadSize p - 1\<rparr>))"

text \<open>
  A history of the task queue: submissions and worker dequeue steps, in the order in which
  they took the pool mutex. \<open>enqueued\<close> lists the tasks whose submission returned a valid
  result, \<open>dequeued\<close> the tasks handed to workers, both in the order of the history.
\<close>

datatype pool_event = Submit Task_ptr | Take

type_synonym submit_result = "(unit, unit) submitted"

definition accepted :: "submit_result \<Rightarrow> bool" where
  "accepted x = (case fst x of Inl e \<Rightarrow> False | Inr r \<Rightarrow> isValid r)"

fun pool_run :: "pool_event list \<Rightarrow> cint \<Rightarrow> ThreadPool \<Rightarrow> cint \<times> ThreadPool" where
  "pool_run [] g p = (g, p)"
| "pool_run (Submit sp # es) g p =
     pool_run es (fst (snd (submitTask sp g p :: submit_result)))
       (snd (snd (submitTask sp g p :: submit_result)))"
| "pool_run (Take # es) g p = pool_run es g (snd (take_task p))"

fun enqueued :: "pool_event list \<Rightarrow> cint \<Rightarrow> ThreadPool \<Rightarrow> Task_ptr list" where
  "enqueued [] g p = []"
| "enqueued (Submit sp # es) g p =
     (if accepted (submitTask sp g p) then [sp] else []) @
     enqueued es (fst (snd (submitTask sp g p :: submit_result)))
       (snd (snd (submitTask sp g p :: submit_result)))"
| "enqueued (Take # es) g p = enqueued es g (snd (take_task p))"

fun dequeued :: "pool_event list \<Rightarrow> cint \<Rightarrow> ThreadPool \<Rightarrow> Task_ptr list" where
  "dequeued [] g p = []"
| "dequeued (Submit sp # es) g p =
     dequeued es (fst (snd (submitTask sp g p :: submit_result)))
       (snd (snd (submitTask sp g p :: submit_result)))"
| "dequeued (Take # es) g p =
     (case fst (take_task p) of None \<Rightarrow> [] | Some tp \<Rightarrow> [tp]) @ dequeued es g (snd (take_task p))"

text \<open>
  A pool before \<^verbatim>\<open>start\<close>, for the examples: fixed mode, at most 2 queued tasks, at most 8
  workers, no worker and no task yet.
\<close>

definition example_pool :: ThreadPool where
  "example_pool =
     \<lparr>threads = Map.empty, initThreadSize = 0, threadSizeThreshHold = 8, curThreadSize = 0,
      idleThreadSize = 0, taskQue = [], taskSize = 0, taskQueMaxThreshHold = 2,
      poolMode = MODE_FIXED, isPoolRunning = False\<rparr>"

text \<open>The same pool after \<^verbatim>\<open>start(1)\<close>, with the id counter at 0.\<close>

definition running_pool :: ThreadPool where
  "running_pool = snd (snd (start 1 0 example_pool))"

section \<open>Properties of \<open>Any\<close>\<close>

lemma cast_ctor:
  "cast cc T' (Any_ctor cc T v) =
     (if T' = T then Inr (cc T (cc T (cc T (cc T v)))) else Inl type_is_unmatch, Any_ctor cc T v)"
  by (simp add: cast_def Any_ctor_def Derive_ctor_def dynamic_cast_def)

lemma cast_state: "snd (cast cc T a) = a"
  by (simp add: cast_def split: option.splits)

lemma cast_null: "base a = None \<Longrightarrow> cast cc T a = (Inl type_is_unmatch, a)"
  by (simp add: cast_def dynamic_cast_def)




text \<open>
  Claim C2. For an \<open>Any\<close> built with type \<open>T\<close>, extraction with type \<open>T'\<close> succeeds exactly
  when \<open>T' = T\<close>, and throws \<^verbatim>\<open>"type is unmatch!"\<close> for every other type, whatever the copy
  constructors do. What a successful extraction yields is the copy of the payload that
  \<^verbatim>\<open>return pd->data_\<close> makes: the payload itself where copies are equal to their source.
\<close>

theorem cast_succeeds_iff_same_type:
  "(\<exists>x. fst (cast cc T' (Any_ctor cc T v)) = Inr x) = (T' = T) \<and>
   fst (cast cc T' (Any_ctor cc T v)) =
     (if T' = T then Inr (cc T (cc T (cc T (cc T v)))) else Inl type_is_unmatch) \<and>
   (T' \<noteq> T \<longrightarrow> fst (cast cc T' (Any_ctor cc T v)) = Inl type_is_unmatch) \<and>
   (cc T v = v \<longrightarrow> (fst (cast cc T' (Any_ctor cc T v)) = Inr v \<longleftrightarrow> T' = T)) \<and>
   (fst (cast same_copy T' (Any_ctor same_copy T v)) = Inr v \<longleftrightarrow> T' = T)"
  by (auto simp: cast_ctor same_copy_def)

theorem cast_succeeds_iff_same_type_witness:
  "fst (cast same_copy ''int'' (Any_ctor same_copy ''int'' (7::int))) = Inr 7 \<and>
   ''std::string'' \<noteq> ''int'' \<and>
   fst (cast same_copy ''std::string'' (Any_ctor same_copy ''int'' (7::int))) =
     Inl type_is_unmatch"
  using cast_succeeds_iff_same_type [of same_copy "''int''" "''int''" "7::int"]
    cast_succeeds_iff_same_type [of same_copy "''std::string''" "''int''" "7::int"]
  by (simp add: same_copy_def)

text \<open>
  Claim C6, as the spec states it: after a successful extraction the \<open>Any\<close> no longer holds
  the payload. The code does not do that: after \<^verbatim>\<open>Any(7).cast_<int>()\<close> the object still
  holds 7, and a second \<^verbatim>\<open>cast_<int>()\<close> returns 7 again.
\<close>

theorem cast_consumes_counterexample:
  "base (snd (cast same_copy ''int'' (Any_ctor same_copy ''int'' (7::int)))) \<noteq> None \<and>
   base (snd (cast same_copy ''int'' (Any_ctor same_copy ''int'' (7::int)))) =
     Some (Derive ''int'' 7) \<and>
   fst (cast same_copy ''int''
     (snd (cast same_copy ''int'' (Any_ctor same_copy ''int'' (7::int))))) = Inr 7"
  by (simp add: cast_def dynamic_cast_def Any_ctor_def Derive_ctor_def same_copy_def)

text \<open>
  Claim C6, amended. \<^verbatim>\<open>cast_<T>\<close> does not consume: it returns a copy of the payload and
  leaves the \<open>Any\<close> as it was (whether it succeeds or throws), so a second \<^verbatim>\<open>cast_<T>\<close>
  on the same object yields the same payload again.
\<close>

theorem cast_leaves_Any_unchanged:
  "snd (cast cc T' a) = a \<and>
   fst (cast cc T' (snd (cast cc T' a))) = fst (cast cc T' a) \<and>
   cast cc T (Any_ctor cc T v) = (Inr (cc T (cc T (cc T (cc T v)))), Any_ctor cc T v) \<and>
   fst (cast cc T (snd (cast cc T (Any_ctor cc T v)))) = Inr (cc T (cc T (cc T (cc T v)))) \<and>
   cast same_copy T (Any_ctor same_copy T v) = (Inr v, Any_ctor same_copy T v) \<and>
   fst (cast same_copy T (snd (cast same_copy T (Any_ctor same_copy T v)))) = Inr v"
  by (simp add: cast_state cast_ctor) (simp add: same_copy_def)

theorem cast_leaves_Any_unchanged_witness:
  "cast same_copy ''int'' (Any_ctor same_copy ''int'' (7::int)) =
     (Inr 7, Any_ctor same_copy ''int'' 7) \<and>
   snd (cast same_copy ''std::string'' (Any_ctor same_copy ''int'' (7::int))) =
     Any_ctor same_copy ''int'' 7"
  using cast_leaves_Any_unchanged [of same_copy "''std::string''"
      "Any_ctor same_copy ''int'' (7::int)" "''int''" "7::int"]
  by blast

text \<open>
  Claim C10. Extraction from an empty \<open>Any\<close> throws \<^verbatim>\<open>"type is unmatch!"\<close> for every
  requested type: \<^verbatim>\<open>dynamic_cast\<close> of the null pointer is null, and the null check comes
  before \<^verbatim>\<open>pd->data_\<close>. A default-constructed \<open>Any\<close> and a moved-from \<open>Any\<close> are empty.
\<close>

theorem cast_empty_throws:
  "base (Any_default :: ('t, 'v) Any) = None \<and>
   base (snd (Any_move (src :: ('t, 'v) Any))) = None \<and>
   dynamic_cast T (None :: ('t, 'v) Base option) = None \<and>
   (base (a :: ('t, 'v) Any) = None \<longrightarrow> cast cc T a = (Inl type_is_unmatch, a)) \<and>
   fst (cast cc T (Any_default :: ('t, 'v) Any)) = Inl type_is_unmatch \<and>
   fst (cast cc T (snd (Any_move src))) = Inl type_is_unmatch"
  by (simp add: cast_null Any_default_def Any_move_def dynamic_cast_def)

theorem cast_empty_throws_witness:
  "base (Any None :: (string, int) Any) = None \<and>
   cast same_copy ''int'' (Any None :: (string, int) Any) = (Inl type_is_unmatch, Any None) \<and>
   fst (cast same_copy ''int'' (snd (Any_move (Any_ctor same_copy ''int'' (7::int))))) =
     Inl type_is_unmatch"
  using cast_empty_throws [of "Any_ctor same_copy ''int'' (7::int)" "''int''" "Any None" same_copy]
  by simp

section \<open>Properties of the semaphore\<close>

lemma sint_bounds: "- 2147483648 \<le> sint (x::cint) \<and> sint x < 2147483648"
  using sint_ge [of x] sint_lt [of x] by simp

lemma sint_INT_MAX: "sint INT_MAX = 2147483647"
  by (simp add: INT_MAX_def)

lemma sint_succ:
  assumes "x \<noteq> INT_MAX"
  shows "sint (x + 1 :: cint) = sint x + 1"
proof -
  have "sint x \<noteq> sint INT_MAX"
    using assms by (simp add: word_eq_iff_signed [where ?'a = int])
  with sint_bounds [of x] have b: "- 2147483648 \<le> sint x + 1 \<and> sint x + 1 < 2147483648"
    by (simp add: sint_INT_MAX)
  have "sint (x + 1) = signed_take_bit 31 (sint x + 1)"
    by (simp add: sint_word_ariths)
  also have "\<dots> = sint x + 1"
    using b by (simp add: signed_take_bit_int_eq_self)
  finally show ?thesis .
qed

lemma sint_pred:
  assumes "0 <s x"
  shows "sint (x - 1 :: cint) = sint x - 1"
proof -
  have "0 < sint x"
    using assms by (simp add: word_sless_alt)
  with sint_bounds [of x] have b: "- 2147483648 \<le> sint x - 1 \<and> sint x - 1 < 2147483648"
    by simp
  have "sint (x - 1) = signed_take_bit 31 (sint x - 1)"
    by (simp add: sint_word_ariths)
  also have "\<dots> = sint x - 1"
    using b by (simp add: signed_take_bit_int_eq_self)
  finally show ?thesis .
qed

text \<open>
  The invariant of a history without overflow, from any state with a count \<open>\<ge> 0\<close>: the
  count stays \<open>\<ge> 0\<close> and moves by the signals minus the completed waits.
\<close>

lemma run_count:
  "no_overflow es s \<Longrightarrow> 0 \<le> sint (resLimit s) \<Longrightarrow>
   0 \<le> sint (resLimit (run es s)) \<and>
   sint (resLimit (run es s)) = sint (resLimit s) + int (signals es) - int (completed_waits es s)"
proof (induction es arbitrary: s)
  case Nil
  then show ?case by simp
next
  case (Cons e es)
  show ?case
  proof (cases e)
    case Post
    with Cons.prems have ne: "resLimit s \<noteq> INT_MAX" and no: "no_overflow es (post s)"
      by simp_all
    have step: "sint (resLimit (post s)) = sint (resLimit s) + 1"
      using ne by (simp add: post_def sint_succ)
    with Cons.prems have "0 \<le> sint (resLimit (post s))" by simp
    from Cons.IH [OF no this] step Post show ?thesis by simp
  next
    case (Wait t)
    with Cons.prems have no: "no_overflow es (snd (wait t s))" by simp
    show ?thesis
    proof (cases "0 <s resLimit s")
      case True
      then have step: "sint (resLimit (snd (wait t s))) = sint (resLimit s) - 1"
        and r: "fst (wait t s) = Returned"
        by (simp_all add: wait_def sint_pred)
      from True have "0 < sint (resLimit s)" by (simp add: word_sless_alt)
      with step have "0 \<le> sint (resLimit (snd (wait t s)))" by simp
      from Cons.IH [OF no this] step r Wait show ?thesis by simp
    next
      case False
      then have step: "resLimit (snd (wait t s)) = resLimit s"
        and r: "fst (wait t s) = Blocked"
        by (simp_all add: wait_def)
      from Cons.prems step have "0 \<le> sint (resLimit (snd (wait t s)))" by simp
      from Cons.IH [OF no this] step r Wait show ?thesis by simp
    qed
  qed
qed

lemma run_posts: "resLimit (run (replicate n Post) s) = resLimit s + of_nat n"
  by (induction n arbitrary: s) (simp_all add: post_def)

lemma signals_posts: "signals (replicate n Post) = n"
  by (induction n) simp_all

lemma completed_waits_posts: "completed_waits (replicate n Post) s = 0"
  by (induction n arbitrary: s) simp_all

text \<open>
  Claim C3, as the spec states it: after \<open>n\<close> signals and \<open>m\<close> completed waits the count is
  \<open>n - m\<close>, and a wait that follows a signal returns without blocking. The count is an
  \<^verbatim>\<open>int\<close>: after 2147483648 signals and no wait it is not 2147483648 (no \<^verbatim>\<open>int\<close> is), it has
  wrapped to -2147483648, and the wait that follows the last signal blocks.
\<close>

theorem Semaphore_count_counterexample:
  "signals (replicate 2147483648 Post) = 2147483648 \<and>
   completed_waits (replicate 2147483648 Post) Semaphore_default = 0 \<and>
   sint (resLimit (run (replicate 2147483648 Post) Semaphore_default)) \<noteq> 2147483648 - 0 \<and>
   sint (resLimit (run (replicate 2147483648 Post) Semaphore_default)) = - 2147483648 \<and>
   fst (wait 0 (run (replicate 2147483648 Post) Semaphore_default)) = Blocked"
  by (simp add: signals_posts completed_waits_posts run_posts Semaphore_default_def
      Semaphore_ctor_def wait_def word_sless_alt)

text \<open>
  Claim C3, amended. The semaphore starts with count 0. In every history in which no
  \<^verbatim>\<open>post\<close> finds the count at \<^verbatim>\<open>INT_MAX\<close> (2147483647): the count is the number of signals
  minus the number of completed waits; \<^verbatim>\<open>wait\<close> blocks exactly when the count is 0, and the
  blocked thread then waits on the condition variable; a \<^verbatim>\<open>wait\<close> that returns has
  decremented the count by one; \<^verbatim>\<open>post\<close> (below \<^verbatim>\<open>INT_MAX\<close>) increments the count by one and
  leaves no thread waiting on the condition variable, and a \<^verbatim>\<open>wait\<close> that follows it returns
  without blocking.
\<close>

theorem Semaphore_counts:
  assumes "no_overflow es Semaphore_default"
  shows "resLimit Semaphore_default = 0 \<and>
    sint (resLimit (run es Semaphore_default)) =
      int (signals es) - int (completed_waits es Semaphore_default) \<and>
    (fst (wait t (run es Semaphore_default)) = Blocked \<longleftrightarrow>
      resLimit (run es Semaphore_default) = 0) \<and>
    (fst (wait t (run es Semaphore_default)) = Blocked \<longrightarrow>
      t \<in> cond (snd (wait t (run es Semaphore_default))) \<and>
      resLimit (snd (wait t (run es Semaphore_default))) = resLimit (run es Semaphore_default)) \<and>
    (fst (wait t (run es Semaphore_default)) = Returned \<longrightarrow>
      sint (resLimit (snd (wait t (run es Semaphore_default)))) =
        sint (resLimit (run es Semaphore_default)) - 1) \<and>
    (resLimit (run es Semaphore_default) \<noteq> INT_MAX \<longrightarrow>
      sint (resLimit (post (run es Semaphore_default))) =
        sint (resLimit (run es Semaphore_default)) + 1 \<and>
      cond (post (run es Semaphore_default)) = {} \<and>
      fst (wait t (post (run es Semaphore_default))) = Returned)"
proof -
  define s where "s = run es Semaphore_default"
  have init: "resLimit Semaphore_default = 0"
    by (simp add: Semaphore_default_def Semaphore_ctor_def)
  then have "0 \<le> sint (resLimit Semaphore_default)" by simp
  from run_count [OF assms this] init
  have nonneg: "0 \<le> sint (resLimit s)"
    and count: "sint (resLimit s) = int (signals es) - int (completed_waits es Semaphore_default)"
    by (simp_all add: s_def)
  have zero: "resLimit s = 0 \<longleftrightarrow> \<not> 0 < sint (resLimit s)"
    using nonneg by (auto simp: word_eq_iff_signed [where ?'a = int])
  have blocked: "fst (wait t s) = Blocked \<longleftrightarrow> resLimit s = 0"
    by (simp add: wait_def word_sless_alt zero)
  have blocked_state: "fst (wait t s) = Blocked \<longrightarrow>
      t \<in> cond (snd (wait t s)) \<and> resLimit (snd (wait t s)) = resLimit s"
    by (simp add: wait_def)
  have returned: "fst (wait t s) = Returned \<longrightarrow>
      sint (resLimit (snd (wait t s))) = sint (resLimit s) - 1"
    by (simp add: wait_def sint_pred)
  have signal: "resLimit s \<noteq> INT_MAX \<longrightarrow>
      sint (resLimit (post s)) = sint (resLimit s) + 1 \<and> cond (post s) = {} \<and>
      fst (wait t (post s)) = Returned"
  proof
    assume ne: "resLimit s \<noteq> INT_MAX"
    then have up: "sint (resLimit (post s)) = sint (resLimit s) + 1"
      by (simp add: post_def sint_succ)
    with nonneg have "0 < sint (resLimit (post s))" by simp
    then have "fst (wait t (post s)) = Returned"
      by (simp add: wait_def word_sless_alt)
    with up show "sint (resLimit (post s)) = sint (resLimit s) + 1 \<and> cond (post s) = {} \<and>
      fst (wait t (post s)) = Returned"
      by (simp add: post_def)
  qed
  from init count blocked blocked_state returned signal show ?thesis
    unfolding s_def by blast
qed

theorem Semaphore_counts_witness:
  "no_overflow [Wait 1, Post, Wait 1, Post, Post, Wait 2] Semaphore_default \<and>
   signals [Wait 1, Post, Wait 1, Post, Post, Wait 2] = 3 \<and>
   completed_waits [Wait 1, Post, Wait 1, Post, Post, Wait 2] Semaphore_default = 2 \<and>
   sint (resLimit (run [Wait 1, Post, Wait 1, Post, Post, Wait 2] Semaphore_default)) = 3 - 2 \<and>
   fst (wait 3 (run [Wait 1, Post, Wait 1, Post, Post, Wait 2] Semaphore_default)) = Returned \<and>
   fst (wait 1 (run [] Semaphore_default)) = Blocked"
  using Semaphore_counts [of "[Wait 1, Post, Wait 1, Post, Post, Wait 2]" 3]
    Semaphore_counts [of "[]" 1]
  by (simp add: Semaphore_default_def Semaphore_ctor_def wait_def post_def INT_MAX_def
      word_sless_alt)

section \<open>Properties of the pool\<close>

lemma running_pool_eq:
  "running_pool = example_pool\<lparr>initThreadSize := 1, isPoolRunning := True,
     threads := [0 \<mapsto> \<lparr>threadId = 0\<rparr>], curThreadSize := 1\<rparr>"
  by (simp add: running_pool_def start_def checkRunningState_def example_pool_def
      Thread_ctor_def emplace_def)

subsection \<open>Submission\<close>

lemma submitTask_Inr:
  "fst (submitTask sp g p) = Inr (Result_ctor sp (isPoolRunning p \<and>
      int (length (taskQue p)) < sint (taskQueMaxThreshHold p)))"
  by (simp add: submitTask_def)

lemma submitTask_valid:
  "isPoolRunning p \<Longrightarrow> int (length (taskQue p)) < sint (taskQueMaxThreshHold p) \<Longrightarrow>
   taskQue (snd (snd (submitTask sp g p))) = taskQue p @ [sp]"
  by (simp add: submitTask_def)

lemma submitTask_invalid:
  "\<not> (isPoolRunning p \<and> int (length (taskQue p)) < sint (taskQueMaxThreshHold p)) \<Longrightarrow>
   snd (submitTask sp g p) = (g, p)"
  by (auto simp: submitTask_def)

text \<open>
  Claim C4. \<^verbatim>\<open>submitTask\<close> never raises: every call returns a \<^verbatim>\<open>Result\<close> bound to the task,
  and either the result is valid and the task is at the back of the queue, or the result is
  invalid and nothing has changed. On a running pool the first happens when the bounded
  wait ends with space in the queue, the second when it ends with the queue still at
  \<^verbatim>\<open>taskQueMaxThreshHold_\<close>.
\<close>

theorem submitTask_never_raises:
  "(\<exists>r. fst (submitTask sp g p :: ('t, 'v) submitted) = Inr r \<and> task r = sp \<and>
      ((isValid r \<and>
        taskQue (snd (snd (submitTask sp g p :: ('t, 'v) submitted))) = taskQue p @ [sp]) \<or>
       (\<not> isValid r \<and> snd (submitTask sp g p :: ('t, 'v) submitted) = (g, p)))) \<and>
   (isPoolRunning p \<and> int (length (taskQue p)) < sint (taskQueMaxThreshHold p) \<longrightarrow>
      fst (submitTask sp g p :: ('t, 'v) submitted) = Inr (Result_ctor sp True) \<and>
      taskQue (snd (snd (submitTask sp g p :: ('t, 'v) submitted))) = taskQue p @ [sp]) \<and>
   (isPoolRunning p \<and> \<not> int (length (taskQue p)) < sint (taskQueMaxThreshHold p) \<longrightarrow>
      (submitTask sp g p :: ('t, 'v) submitted) = (Inr (Result_ctor sp False), g, p))"
proof (cases "isPoolRunning p \<and> int (length (taskQue p)) < sint (taskQueMaxThreshHold p)")
  case True
  then have "fst (submitTask sp g p :: ('t, 'v) submitted) = Inr (Result_ctor sp True)"
    and "taskQue (snd (snd (submitTask sp g p :: ('t, 'v) submitted))) = taskQue p @ [sp]"
    by (simp_all add: submitTask_Inr submitTask_valid)
  with True show ?thesis by (simp add: Result_ctor_def)
next
  case False
  then have "(submitTask sp g p :: ('t, 'v) submitted) = (Inr (Result_ctor sp False), g, p)"
    using submitTask_Inr [of sp g p] submitTask_invalid [of p sp g]
    by (metis prod.collapse)
  with False show ?thesis by (auto simp: Result_ctor_def)
qed

theorem submitTask_never_raises_witness:
  "isPoolRunning running_pool \<and>
   int (length (taskQue running_pool)) < sint (taskQueMaxThreshHold running_pool) \<and>
   fst (submitTask 10 0 running_pool :: (string, int) submitted) = Inr (Result_ctor 10 True) \<and>
   taskQue (snd (snd (submitTask 10 0 running_pool :: (string, int) submitted))) = [10] \<and>
   isPoolRunning (running_pool\<lparr>taskQue := [10, 11]\<rparr>) \<and>
   \<not> int (length (taskQue (running_pool\<lparr>taskQue := [10, 11]\<rparr>)))
       < sint (taskQueMaxThreshHold (running_pool\<lparr>taskQue := [10, 11]\<rparr>)) \<and>
   (submitTask 12 0 (running_pool\<lparr>taskQue := [10, 11]\<rparr>) :: (string, int) submitted) =
     (Inr (Result_ctor 12 False), 0, running_pool\<lparr>taskQue := [10, 11]\<rparr>)"
  using submitTask_never_raises [of 10 0 running_pool, where ?'t = string and ?'v = int]
    submitTask_never_raises [of 12 0 "running_pool\<lparr>taskQue := [10, 11]\<rparr>",
      where ?'t = string and ?'v = int]
  by (simp add: running_pool_eq example_pool_def)

subsection \<open>Results\<close>

lemma get_invalid: "\<not> isValid r \<Longrightarrow> get t r = (Some Any_default, r)"
  by (simp add: get_def)

lemma get_fresh_valid: "fst (get t (Result_ctor sp True)) = None"
  by (simp add: get_def Result_ctor_def Semaphore_default_def Semaphore_ctor_def wait_def
      word_sless_alt)

text \<open>
  Claim C5. The \<^verbatim>\<open>Result\<close> that \<^verbatim>\<open>submitTask\<close> returns is valid exactly when the task was put
  into the queue (and the queue is unchanged when it is invalid). \<^verbatim>\<open>get\<close> on an invalid
  \<^verbatim>\<open>Result\<close> returns an empty \<open>Any\<close> at once, without a step on the semaphore: the \<^verbatim>\<open>Result\<close>,
  its semaphore included, is as before. On the valid \<^verbatim>\<open>Result\<close> just returned, \<^verbatim>\<open>get\<close> blocks.
\<close>

theorem Result_valid_iff_enqueued:
  assumes "fst (submitTask sp g p :: ('t, 'v) submitted) = Inr r"
  shows "(isValid r \<longleftrightarrow>
           taskQue (snd (snd (submitTask sp g p :: ('t, 'v) submitted))) = taskQue p @ [sp]) \<and>
         (\<not> isValid r \<longrightarrow>
           taskQue (snd (snd (submitTask sp g p :: ('t, 'v) submitted))) = taskQue p) \<and>
         (\<not> isValid r \<longrightarrow> get t r = (Some Any_default, r)) \<and>
         (isValid r \<longrightarrow> fst (get t r) = None) \<and>
         (\<not> isValid (r' :: ('t, 'v) Result) \<longrightarrow> get t r' = (Some Any_default, r'))"
proof -
  let ?ok = "isPoolRunning p \<and> int (length (taskQue p)) < sint (taskQueMaxThreshHold p)"
  from assms have r: "r = Result_ctor sp ?ok"
    by (simp add: submitTask_Inr)
  then have v: "isValid r = ?ok"
    by (simp add: Result_ctor_def)
  show ?thesis
  proof (cases ?ok)
    case True
    with r have "r = Result_ctor sp True" by simp
    moreover from True v have "isValid r" by simp
    ultimately show ?thesis
      using True by (simp add: submitTask_valid get_fresh_valid get_invalid)
  next
    case False
    then have "snd (submitTask sp g p :: ('t, 'v) submitted) = (g, p)"
      by (rule submitTask_invalid)
    moreover from False v have "\<not> isValid r" by simp
    ultimately show ?thesis
      by (simp add: get_invalid)
  qed
qed

theorem Result_valid_iff_enqueued_witness:
  "fst (submitTask 12 0 (running_pool\<lparr>taskQue := [10, 11]\<rparr>) :: (string, int) submitted) =
     Inr (Result_ctor 12 False) \<and>
   \<not> isValid (Result_ctor 12 False :: (string, int) Result) \<and>
   taskQue (snd (snd (submitTask 12 0 (running_pool\<lparr>taskQue := [10, 11]\<rparr>)
     :: (string, int) submitted))) = [10, 11] \<and>
   get 5 (Result_ctor 12 False :: (string, int) Result) = (Some (Any None), Result_ctor 12 False) \<and>
   fst (submitTask 10 0 running_pool :: (string, int) submitted) = Inr (Result_ctor 10 True) \<and>
   isValid (Result_ctor 10 True :: (string, int) Result) \<and>
   taskQue (snd (snd (submitTask 10 0 running_pool :: (string, int) submitted))) = [10] \<and>
   fst (get 5 (Result_ctor 10 True :: (string, int) Result)) = None"
proof -
  have a: "fst (submitTask 12 0 (running_pool\<lparr>taskQue := [10, 11]\<rparr>) :: (string, int) submitted) =
     Inr (Result_ctor 12 False)"
    by (simp add: submitTask_def running_pool_eq example_pool_def)
  have b: "fst (submitTask 10 0 running_pool :: (string, int) submitted) = Inr (Result_ctor 10 True)"
    by (simp add: submitTask_def running_pool_eq example_pool_def)
  from a b Result_valid_iff_enqueued [OF a, of 5 "Result_ctor 12 False"]
    Result_valid_iff_enqueued [OF b, of 5 "Result_ctor 12 False"]
  show ?thesis
    by (simp add: Result_ctor_def Any_default_def running_pool_eq example_pool_def)
qed

subsection \<open>Configuration\<close>

lemma start_running: "isPoolRunning (snd (snd (start initial g p)))"
  by (simp add: start_def checkRunningState_def)

lemma submitTask_running:
  "isPoolRunning (snd (snd (submitTask sp g p))) = isPoolRunning p"
  by (simp add: submitTask_def)

lemma take_task_running: "isPoolRunning (snd (take_task p)) = isPoolRunning p"
  by (simp add: take_task_def split: list.splits)

lemma pool_run_running: "isPoolRunning (snd (pool_run es g p)) = isPoolRunning p"
proof (induction es arbitrary: g p)
  case Nil
  then show ?case by simp
next
  case (Cons e es)
  then show ?case
    by (cases e) (simp_all add: submitTask_running take_task_running)
qed

text \<open>
  Claim C7. On a running pool each of \<^verbatim>\<open>setMode\<close>, \<^verbatim>\<open>setTaskQueMaxThreshHold\<close> and
  \<^verbatim>\<open>setThreadSizeThreshHold\<close> raises \<open>AlreadyRunning\<close> and leaves the pool as it was. A pool
  is running after \<^verbatim>\<open>start\<close>, and stays so through every history of submissions and worker
  steps.
\<close>

theorem setters_raise_AlreadyRunning:
  "(isPoolRunning p \<longrightarrow>
      setMode m p = (Inl AlreadyRunning, p) \<and>
      setTaskQueMaxThreshHold n p = (Inl AlreadyRunning, p) \<and>
      setThreadSizeThreshHold k p = (Inl AlreadyRunning, p)) \<and>
   isPoolRunning (snd (snd (start initial g q))) \<and>
   isPoolRunning
     (snd (pool_run es (fst (snd (start initial g q))) (snd (snd (start initial g q)))))"
  by (simp add: setMode_def setTaskQueMaxThreshHold_def setThreadSizeThreshHold_def
      checkRunningState_def start_running pool_run_running)

theorem setters_raise_AlreadyRunning_witness:
  "isPoolRunning running_pool \<and>
   setMode MODE_CACHED running_pool = (Inl AlreadyRunning, running_pool) \<and>
   setTaskQueMaxThreshHold 100 running_pool = (Inl AlreadyRunning, running_pool) \<and>
   setThreadSizeThreshHold 16 running_pool = (Inl AlreadyRunning, running_pool) \<and>
   poolMode running_pool = MODE_FIXED \<and>
   taskQueMaxThreshHold running_pool = 2 \<and>
   threadSizeThreshHold running_pool = 8"
  using setters_raise_AlreadyRunning [of running_pool MODE_CACHED 100 16 1 0 example_pool "[]"]
  by (simp add: running_pool_def start_def checkRunningState_def example_pool_def)

subsection \<open>Order of delivery\<close>

lemma submitTask_accepted:
  "accepted (submitTask sp g p) \<Longrightarrow>
   taskQue (snd (snd (submitTask sp g p :: submit_result))) = taskQue p @ [sp]"
  by (auto simp: submitTask_def accepted_def Result_ctor_def split: if_splits)

lemma submitTask_rejected:
  "\<not> accepted (submitTask sp g p) \<Longrightarrow>
   taskQue (snd (snd (submitTask sp g p :: submit_result))) = taskQue p"
  by (auto simp: submitTask_def accepted_def Result_ctor_def split: if_splits)

lemma take_task_queue:
  "(case fst (take_task p) of None \<Rightarrow> [] | Some tp \<Rightarrow> [tp]) @ taskQue (snd (take_task p)) =
   taskQue p"
  by (simp add: take_task_def split: list.splits)

text \<open>
  The invariant of every history: what was in the queue, followed by what was accepted since,
  is what was handed to workers, followed by what is in the queue now.
\<close>

lemma queue_history:
  "taskQue p @ enqueued es g p = dequeued es g p @ taskQue (snd (pool_run es g p))"
proof (induction es arbitrary: g p)
  case Nil
  then show ?case by simp
next
  case (Cons e es)
  show ?case
  proof (cases e)
    case (Submit sp)
    let ?x = "submitTask sp g p :: submit_result"
    show ?thesis
    proof (cases "accepted ?x")
      case True
      from submitTask_accepted [OF True] Cons.IH [of "snd (snd ?x)" "fst (snd ?x)"] True Submit
      show ?thesis by simp
    next
      case False
      from submitTask_rejected [OF False] Cons.IH [of "snd (snd ?x)" "fst (snd ?x)"] False Submit
      show ?thesis by simp
    qed
  next
    case Take
    from Cons.IH [of "snd (take_task p)" g] take_task_queue [of p] Take
    show ?thesis
      by (metis append.assoc dequeued.simps(3) enqueued.simps(3) pool_run.simps(3))
  qed
qed

text \<open>
  Claim C8. Tasks are handed to workers in the order in which they were put into the queue:
  in every history, the list of dequeued tasks is an initial segment of the list of enqueued
  tasks (after those already queued at the beginning). So the task enqueued at position \<open>i\<close>
  is the one dequeued at position \<open>i\<close>, and of two tasks the one enqueued later is never
  dequeued earlier.
\<close>

theorem tasks_dequeued_in_FIFO_order:
  "taskQue p @ enqueued es g p = dequeued es g p @ taskQue (snd (pool_run es g p)) \<and>
   dequeued es g p = take (length (dequeued es g p)) (taskQue p @ enqueued es g p) \<and>
   (\<forall>i j. i < j \<and> j < length (dequeued es g p) \<longrightarrow>
      dequeued es g p ! i = (taskQue p @ enqueued es g p) ! i \<and>
      dequeued es g p ! j = (taskQue p @ enqueued es g p) ! j)"
proof -
  have "dequeued es g p ! k = (taskQue p @ enqueued es g p) ! k"
    if "k < length (dequeued es g p)" for k
    using that by (simp add: queue_history nth_append)
  moreover have "dequeued es g p = take (length (dequeued es g p)) (taskQue p @ enqueued es g p)"
    by (simp add: queue_history)
  ultimately show ?thesis
    using queue_history [of p es g] by auto
qed

theorem tasks_dequeued_in_FIFO_order_witness:
  "enqueued [Submit 10, Submit 11, Submit 12, Take, Submit 13, Take, Take, Take] 0 running_pool
     = [10, 11, 13] \<and>
   dequeued [Submit 10, Submit 11, Submit 12, Take, Submit 13, Take, Take, Take] 0 running_pool
     = [10, 11, 13] \<and>
   (0::nat) < 1 \<and>
   1 < length
     (dequeued [Submit 10, Submit 11, Submit 12, Take, Submit 13, Take, Take, Take] 0 running_pool) \<and>
   dequeued [Submit 10, Submit 11, Submit 12, Take, Submit 13, Take, Take, Take] 0 running_pool ! 0
     = 10 \<and>
   dequeued [Submit 10, Submit 11, Submit 12, Take, Submit 13, Take, Take, Take] 0 running_pool ! 1
     = 11"
  using tasks_dequeued_in_FIFO_order [of running_pool
      "[Submit 10, Submit 11, Submit 12, Take, Submit 13, Take, Take, Take]" 0]
  by (simp add: running_pool_eq example_pool_def submitTask_def take_task_def accepted_def
      Result_ctor_def)

end
